theory Spec2Isabelle
  imports Main "HOL-Library.Sublist" "HOL-Library.Multiset"
begin

section \<open>The SQL procedure converter of \<^verbatim>\<open>claude.py\<close>\<close>

text \<open>
  The program uploads SQL scripts, asks a hosted language model to translate each one,
  registers the translation with a database (with one model-assisted repair), and offers
  the translations as an archive. Everything it does beyond computing on strings is a
  call to an outside service. The embedding makes these calls explicit:
  \<^item> every call the program makes is appended to a log of events, in program order;
  \<^item> what a call answers is read from an environment, a record of functions that see
    the log so far (so a service may answer the same request differently at different
    times) and the arguments of the call;
  \<^item> a Python exception is a value of type \<open>exn\<close>, and a function that can raise
    returns \<open>exn + 'a\<close>, with \<open>Inl\<close> for the exception.

  Calls that may raise are \<^verbatim>\<open>connect\<close>, \<^verbatim>\<open>cursor\<close>, \<^verbatim>\<open>execute\<close>, \<^verbatim>\<open>converse\<close> (with the
  read of the response) and the decoding of an upload. The others return normally in
  the model: \<^verbatim>\<open>boto3.client\<close>, \<^verbatim>\<open>print\<close>, the Streamlit calls, \<^verbatim>\<open>zipfile\<close>, and the two
  \<^verbatim>\<open>close()\<close> methods of the Snowflake connector.
\<close>

subsection \<open>Exceptions, events, and the outside world\<close>

text \<open>
  \<open>ProgrammingError\<close> is \<^verbatim>\<open>snowflake.connector.errors.ProgrammingError\<close>; the other
  constructors stand for exceptions that are instances of \<^verbatim>\<open>Exception\<close> but not of
  \<^verbatim>\<open>ProgrammingError\<close>. Every constructor but \<open>UnboundLocalError\<close> carries the text of
  \<^verbatim>\<open>str(e)\<close>; \<open>UnboundLocalError\<close> carries the name of the unbound local variable.
\<close>

datatype exn =
    ProgrammingError string
  | ClientError string
  | UnicodeDecodeError string
  | UnboundLocalError string
  | OtherException string

fun str_exn :: "exn \<Rightarrow> string" where
  "str_exn (ProgrammingError m) = m"
| "str_exn (ClientError m) = m"
| "str_exn (UnicodeDecodeError m) = m"
| "str_exn (UnboundLocalError v) =
     ''cannot access local variable '' @ [CHR 0x27] @ v @ [CHR 0x27]
       @ '' where it is not associated with a value''"
| "str_exn (OtherException m) = m"

datatype event =
    StTitle string
  | StFileUploader string
  | StButton string
  | StWarning string
  | StError string
  | StSuccess string
  | StSubheader string
  | StWrite "string list"
  | StDownloadButton "(string \<times> string) list"
  | Connect
  | CloseConnection
  | OpenCursor
  | Execute string
  | CloseCursor
  | Converse string
  | Print string

datatype connection = SnowflakeConnection nat

text \<open>
  The environment. \<open>connect\<close> is \<^verbatim>\<open>snowflake.connector.connect(...)\<close>, \<open>cursor\<close> is
  \<^verbatim>\<open>connection.cursor()\<close>, \<open>execute\<close> is \<^verbatim>\<open>cursor.execute(sql)\<close>, and \<open>converse\<close> is
  \<^verbatim>\<open>client.converse(...)\<close> followed by the read of
  \<^verbatim>\<open>response["output"]["message"]["content"][0]["text"]\<close>, which sits in the same
  \<^verbatim>\<open>try\<close> block: \<open>Inr\<close> is the text read, \<open>Inl\<close> any exception raised on the way.
  The two \<^verbatim>\<open>close()\<close> calls of the Snowflake connector and the Streamlit calls are
  events that return normally.
\<close>

record env =
  connect :: "event list \<Rightarrow> exn + connection"
  cursor :: "event list \<Rightarrow> exn + unit"
  execute :: "event list \<Rightarrow> string \<Rightarrow> exn + unit"
  converse :: "event list \<Rightarrow> string \<Rightarrow> exn + string"

text \<open>
  An uploaded file: its name and the result of \<^verbatim>\<open>uploaded_file.read().decode("utf-8")\<close>,
  which is \<open>None\<close> when the bytes are not valid UTF-8 (Python raises
  \<^verbatim>\<open>UnicodeDecodeError\<close>).
\<close>

record uploaded_file =
  name :: string
  content :: "string option"

subsection \<open>Strings: \<^verbatim>\<open>find\<close>, slices, \<^verbatim>\<open>strip\<close>, truth value, \<^verbatim>\<open>basename\<close>\<close>

text \<open>
  A \<open>char\<close> stands for a code point below 256. \<open>isspace\<close> lists the code points below
  256 that Python's \<^verbatim>\<open>str.isspace\<close> accepts, which are the ones \<^verbatim>\<open>strip()\<close> removes.
\<close>

definition isspace :: "char \<Rightarrow> bool" where
  "isspace c = ((of_char c :: nat) \<in> {9, 10, 11, 12, 13, 28, 29, 30, 31, 32, 133, 160})"

definition strip :: "string \<Rightarrow> string" where
  "strip s = rev (dropWhile isspace (rev (dropWhile isspace s)))"

text \<open>
  \<open>find_at sub s i\<close> searches \<open>s\<close>, whose first character has index \<open>i\<close> in the whole
  string, for the lowest index at which \<open>sub\<close> starts; \<open>-1\<close> when there is none.
\<close>

fun find_at :: "string \<Rightarrow> string \<Rightarrow> nat \<Rightarrow> int" where
  "find_at sub [] i = (if sub = [] then int i else - 1)"
| "find_at sub (c # cs) i = (if prefix sub (c # cs) then int i else find_at sub cs (Suc i))"

text \<open>\<^verbatim>\<open>s.find(sub, start)\<close>: a negative \<open>start\<close> counts from the end and is clipped at 0.\<close>

definition py_find :: "string \<Rightarrow> string \<Rightarrow> int \<Rightarrow> int" where
  "py_find s sub start =
     (let n = int (length s);
          b = (if start < 0 then max 0 (start + n) else start)
      in if n < b then - 1 else find_at sub (drop (nat b) s) (nat b))"

text \<open>\<^verbatim>\<open>s[a:b]\<close>: negative bounds count from the end, and both are clipped to the string.\<close>

definition py_slice :: "string \<Rightarrow> int \<Rightarrow> int \<Rightarrow> string" where
  "py_slice s a b =
     (let n = int (length s);
          clip = (\<lambda>i. if i < 0 then max 0 (i + n) else min i n)
      in take (nat (clip b) - nat (clip a)) (drop (nat (clip a)) s))"

text \<open>The truth value of an optional string: \<^verbatim>\<open>None\<close> and \<^verbatim>\<open>""\<close> are false.\<close>

fun truthy :: "string option \<Rightarrow> bool" where
  "truthy None = False"
| "truthy (Some s) = (s \<noteq> [])"

text \<open>\<^verbatim>\<open>os.path.basename\<close> (POSIX): what follows the last slash.\<close>

definition basename :: "string \<Rightarrow> string" where
  "basename p = rev (takeWhile (\<lambda>c. c \<noteq> CHR ''/'') (rev p))"

subsection \<open>The response extractor\<close>

text \<open>
  Lines 44 to 52 of \<^verbatim>\<open>convert_procedure\<close>, repeated word for word as lines 96 to 104 of
  \<^verbatim>\<open>procedure_error_rtry\<close>.
\<close>

definition extract_sql_block :: "string \<Rightarrow> string option" where
  "extract_sql_block response_text =
     (let start_index = py_find response_text ''```sql'' 0;
          end_index = py_find response_text ''```'' (start_index + 6)
      in if start_index \<noteq> - 1 \<and> end_index \<noteq> - 1
         then Some (strip (py_slice response_text (start_index + 6) end_index))
         else None)"

subsection \<open>The two model calls\<close>

definition model_id :: string where
  "model_id = ''anthropic.claude-3-5-sonnet-20240620-v1:0''"

definition convert_prompt :: "string \<Rightarrow> string" where
  "convert_prompt sql_code =
     ''Human: You are a highly skilled SQL and Snowflake expert. Your task is to convert an MS SQL Server stored procedure into a Snowflake-compatible SQL stored procedure using SQL language for procedure conversion. Don''
     @ [CHR 0x27] @
     ''t use JavaScript. Write high-quality Snowflake SQL code for the conversion.\<newline>\<newline>    Ensure the conversion handles all necessary syntax differences between MS SQL Server and Snowflake. Review your output thoroughly to confirm there are no syntax errors or functional discrepancies.\<newline>    \<newline>    Here is the MS SQL Server stored procedure code:\<newline>    <task>\<newline>    ''
     @ sql_code @
     ''\<newline>    </task>\<newline>    \<newline>    Assistant:\<newline>    ''"

definition repair_prompt :: "string \<Rightarrow> string \<Rightarrow> string" where
  "repair_prompt sql_code error =
     ''Human: You are a highly skilled SQL and Snowflake expert. Your task is to resolve an issue with a Snowflake stored procedure.\<newline>    You will be provided with a Snowflake stored procedure and its respective error. Try resolving the code issue based on the error message.\<newline>\<newline>    Review your output thoroughly to confirm there are no syntax errors or functional discrepancies.\<newline>    \<newline>    Here is the Snowflake stored procedure code:\<newline>    <task>\<newline>    ''
     @ sql_code @
     ''\<newline>    </task>\<newline>    <error>\<newline>    ''
     @ error @
     ''\<newline>    </error>\<newline>    \<newline>    Assistant:\<newline>    ''"

text \<open>The line printed by both \<^verbatim>\<open>except\<close> handlers.\<close>

definition invoke_error_line :: "exn \<Rightarrow> string" where
  "invoke_error_line e =
     ''ERROR: Can'' @ [CHR 0x27] @ ''t invoke '' @ [CHR 0x27] @ model_id @ [CHR 0x27]
       @ ''. Reason: '' @ str_exn e"

text \<open>
  \<^verbatim>\<open>convert_procedure\<close>. The handler \<^verbatim>\<open>except (ClientError, Exception)\<close> catches every
  exception of the \<^verbatim>\<open>try\<close> block, prints, and returns \<^verbatim>\<open>None\<close>. Building the client
  and the prompt (before the \<^verbatim>\<open>try\<close>) is local and returns normally.
\<close>

definition convert_procedure ::
  "env \<Rightarrow> event list \<Rightarrow> string \<Rightarrow> string option \<times> event list" where
  "convert_procedure env log sql_code =
     (let user_message = convert_prompt sql_code
      in case converse env log user_message of
           Inr response_text \<Rightarrow>
             (extract_sql_block response_text, log @ [Converse user_message])
         | Inl e \<Rightarrow>
             (None, log @ [Converse user_message, Print (invoke_error_line e)]))"

text \<open>\<^verbatim>\<open>procedure_error_rtry\<close>, with its \<open>connection\<close> parameter.\<close>

definition procedure_error_rtry ::
  "env \<Rightarrow> connection \<Rightarrow> event list \<Rightarrow> string \<Rightarrow> string \<Rightarrow> string option \<times> event list" where
  "procedure_error_rtry env connection log sql_code error =
     (let user_message = repair_prompt sql_code error
      in case converse env log user_message of
           Inr response_text \<Rightarrow>
             (extract_sql_block response_text, log @ [Converse user_message])
         | Inl e \<Rightarrow>
             (None, log @ [Converse user_message, Print (invoke_error_line e)]))"

subsection \<open>Registration\<close>

text \<open>
  \<^verbatim>\<open>create_stored_procedure_in_snowflake\<close>. The local variable \<^verbatim>\<open>cursor\<close> is bound only
  when \<^verbatim>\<open>connection.cursor()\<close> returns. When that call raises, the \<^verbatim>\<open>finally\<close> clause
  reads the unbound variable and raises \<^verbatim>\<open>UnboundLocalError\<close>, which replaces whatever
  was being raised or returned; if the call raised a \<^verbatim>\<open>ProgrammingError\<close>, the handler
  has asked for a repair before that.
  When the cursor is bound, the \<^verbatim>\<open>finally\<close> clause closes it on every way out.
\<close>

definition create_stored_procedure_in_snowflake ::
  "env \<Rightarrow> connection \<Rightarrow> event list \<Rightarrow> string \<Rightarrow> (exn + bool) \<times> event list" where
  "create_stored_procedure_in_snowflake env connection log sql_code =
     (case cursor env log of
        Inl e \<Rightarrow>
          (case e of
             ProgrammingError msg \<Rightarrow>
               (let (corrected_sql_code, log1) =
                      procedure_error_rtry env connection (log @ [OpenCursor]) sql_code msg
                in (Inl (UnboundLocalError ''cursor''), log1))
           | _ \<Rightarrow> (Inl (UnboundLocalError ''cursor''), log @ [OpenCursor]))
      | Inr _ \<Rightarrow>
          (case execute env (log @ [OpenCursor]) sql_code of
             Inr _ \<Rightarrow> (Inr True, log @ [OpenCursor, Execute sql_code, CloseCursor])
           | Inl e \<Rightarrow>
               (case e of
                  ProgrammingError msg \<Rightarrow>
                    (let (corrected_sql_code, log1) =
                           procedure_error_rtry env connection
                             (log @ [OpenCursor, Execute sql_code]) sql_code msg
                     in if truthy corrected_sql_code
                        then (case execute env log1 (the corrected_sql_code) of
                                Inr _ \<Rightarrow>
                                  (Inr True,
                                   log1 @ [Execute (the corrected_sql_code), CloseCursor])
                              | Inl e2 \<Rightarrow>
                                  (case e2 of
                                     ProgrammingError _ \<Rightarrow>
                                       (Inr False,
                                        log1 @ [Execute (the corrected_sql_code), CloseCursor])
                                   | _ \<Rightarrow>
                                       (Inl e2,
                                        log1 @ [Execute (the corrected_sql_code), CloseCursor])))
                        else (Inr False, log1 @ [CloseCursor]))
                | _ \<Rightarrow> (Inl e, log @ [OpenCursor, Execute sql_code, CloseCursor]))))"

definition process_sql_code ::
  "env \<Rightarrow> event list \<Rightarrow> string \<Rightarrow> string option \<times> event list" where
  "process_sql_code env log sql_code = convert_procedure env log sql_code"

subsection \<open>The archive and the batch\<close>

text \<open>
  \<^verbatim>\<open>create_zip_file\<close>: the archive is the list of its entries (name, contents), in the
  order \<^verbatim>\<open>writestr\<close> adds them.
\<close>

definition create_zip_file :: "(string \<times> string) list \<Rightarrow> (string \<times> string) list" where
  "create_zip_file converted_files =
     foldl (\<lambda>zip_file (file_name, converted_code). zip_file @ [(file_name, converted_code)])
       [] converted_files"

text \<open>The three lists that \<^verbatim>\<open>main\<close> accumulates.\<close>

record batch_report =
  converted_files :: "(string \<times> string) list"
  created_successfully :: "string list"
  not_created_files :: "string list"

definition empty_report :: batch_report where
  "empty_report = \<lparr>converted_files = [], created_successfully = [], not_created_files = []\<rparr>"

text \<open>The body of the \<^verbatim>\<open>for\<close> loop of \<^verbatim>\<open>main\<close> (lines 169 to 180), for one file.\<close>

definition process_file ::
  "env \<Rightarrow> connection \<Rightarrow> uploaded_file \<Rightarrow> batch_report \<Rightarrow> event list
     \<Rightarrow> (exn + batch_report) \<times> event list" where
  "process_file env snowflake_connection f rep log =
     (case content f of
        None \<Rightarrow> (Inl (UnicodeDecodeError ''invalid utf-8''), log)
      | Some sql_code \<Rightarrow>
          (let (converted_code, log1) = process_sql_code env log sql_code
           in if truthy converted_code
              then
                (let rep1 = rep\<lparr>converted_files :=
                                  converted_files rep @ [(basename (name f), the converted_code)]\<rparr>
                 in case create_stored_procedure_in_snowflake env snowflake_connection log1
                           (the converted_code) of
                      (Inl e, log2) \<Rightarrow> (Inl e, log2)
                    | (Inr created, log2) \<Rightarrow>
                        if created
                        then (Inr (rep1\<lparr>created_successfully :=
                                          created_successfully rep1 @ [basename (name f)]\<rparr>), log2)
                        else (Inr (rep1\<lparr>not_created_files :=
                                          not_created_files rep1 @ [basename (name f)]\<rparr>), log2))
              else (Inr (rep\<lparr>not_created_files :=
                                not_created_files rep @ [basename (name f)]\<rparr>), log1)))"

text \<open>The loop: an exception raised in the body leaves it at once.\<close>

fun process_files ::
  "env \<Rightarrow> connection \<Rightarrow> uploaded_file list \<Rightarrow> batch_report \<Rightarrow> event list
     \<Rightarrow> (exn + batch_report) \<times> event list" where
  "process_files env snowflake_connection [] rep log = (Inr rep, log)"
| "process_files env snowflake_connection (f # fs) rep log =
     (case process_file env snowflake_connection f rep log of
        (Inl e, log') \<Rightarrow> (Inl e, log')
      | (Inr rep', log') \<Rightarrow> process_files env snowflake_connection fs rep' log')"

text \<open>
  \<^verbatim>\<open>main\<close>. \<open>clicked\<close> is what \<^verbatim>\<open>st.button("Convert")\<close> returns and \<open>uploaded_files\<close>
  what \<^verbatim>\<open>st.file_uploader\<close> returns. The result is \<open>Inr (Some rep)\<close> when the loop ran
  to its end and the three lists were displayed, \<open>Inr None\<close> when \<^verbatim>\<open>main\<close> returned
  without displaying them, and \<open>Inl e\<close> when \<open>e\<close> left \<^verbatim>\<open>main\<close>.
  When \<^verbatim>\<open>connect\<close> raises, \<^verbatim>\<open>snowflake_connection\<close> is unbound, and the \<^verbatim>\<open>finally\<close>
  clause, which reads it, raises \<^verbatim>\<open>UnboundLocalError\<close> after the handler has run.
\<close>

definition ui_start :: "event list" where
  "ui_start =
     [StTitle ''MS SQL Server to Snowflake Procedure Converter'',
      StFileUploader ''Upload SQL files'',
      StButton ''Convert'']"

definition display_results :: "batch_report \<Rightarrow> event list" where
  "display_results rep =
     [StSuccess ''Conversion Complete!'',
      StSubheader ''Successfully Created Procedures in Snowflake:'',
      StWrite (created_successfully rep),
      StSubheader ''Not Created Procedures:'',
      StWrite (not_created_files rep),
      StDownloadButton (create_zip_file (converted_files rep))]"

definition main ::
  "env \<Rightarrow> bool \<Rightarrow> uploaded_file list \<Rightarrow> (exn + batch_report option) \<times> event list" where
  "main env clicked uploaded_files =
     (if clicked
      then if uploaded_files \<noteq> []
           then (case connect env ui_start of
                   Inl e \<Rightarrow>
                     (Inl (UnboundLocalError ''snowflake_connection''),
                      ui_start @ [Connect,
                                  StError (''Failed to connect to Snowflake: '' @ str_exn e)])
                 | Inr snowflake_connection \<Rightarrow>
                     (case process_files env snowflake_connection uploaded_files empty_report
                             (ui_start @ [Connect]) of
                        (Inl e, log1) \<Rightarrow>
                          (Inr None,
                           log1 @ [StError (''Failed to connect to Snowflake: '' @ str_exn e),
                                   CloseConnection])
                      | (Inr rep, log1) \<Rightarrow>
                          (Inr (Some rep), log1 @ display_results rep @ [CloseConnection])))
           else (Inr None, ui_start @ [StWarning ''Please upload at least one SQL file.''])
      else (Inr None, ui_start))"

subsection \<open>Reading the log\<close>

text \<open>The number of submissions (\<^verbatim>\<open>cursor.execute\<close>) and of model calls in a log.\<close>

definition submissions :: "event list \<Rightarrow> nat" where
  "submissions log = length (filter (\<lambda>e. case e of Execute _ \<Rightarrow> True | _ \<Rightarrow> False) log)"

definition model_calls :: "event list \<Rightarrow> nat" where
  "model_calls log = length (filter (\<lambda>e. case e of Converse _ \<Rightarrow> True | _ \<Rightarrow> False) log)"

text \<open>
  What \<^verbatim>\<open>process_sql_code\<close> returned for each file of a run of the loop, in order: the
  run is replayed with \<open>process_file\<close>, and the list stops where the loop stops.
\<close>

fun translation_results ::
  "env \<Rightarrow> connection \<Rightarrow> uploaded_file list \<Rightarrow> batch_report \<Rightarrow> event list
     \<Rightarrow> string option list" where
  "translation_results env snowflake_connection [] rep log = []"
| "translation_results env snowflake_connection (f # fs) rep log =
     (case content f of
        None \<Rightarrow> []
      | Some sql_code \<Rightarrow>
          fst (process_sql_code env log sql_code) #
          (case process_file env snowflake_connection f rep log of
             (Inl e, log') \<Rightarrow> []
           | (Inr rep', log') \<Rightarrow> translation_results env snowflake_connection fs rep' log'))"

subsection \<open>Stub services\<close>

text \<open>Concrete environments and uploads, on which the theorems below are run.\<close>

definition fenced_procedure :: string where
  "fenced_procedure = ''Here it is:\<newline>```sql\<newline>CREATE PROCEDURE p() RETURNS INT AS BEGIN RETURN 1; END\<newline>```\<newline>''"

definition fenced_repair :: string where
  "fenced_repair = ''```sql\<newline>CREATE OR REPLACE PROCEDURE p() RETURNS INT AS BEGIN RETURN 1; END;\<newline>```''"

text \<open>A database that accepts everything, and a model that answers every prompt.\<close>

definition all_fine :: env where
  "all_fine =
     \<lparr>connect = (\<lambda>log. Inr (SnowflakeConnection 1)),
      cursor = (\<lambda>log. Inr ()),
      execute = (\<lambda>log sql. Inr ()),
      converse = (\<lambda>log prompt. Inr fenced_procedure)\<rparr>"

text \<open>The model answers without a fenced block.\<close>

definition no_block :: env where
  "no_block = all_fine\<lparr>converse := (\<lambda>log prompt. Inr ''I cannot convert this procedure.'')\<rparr>"

text \<open>The model call fails.\<close>

definition model_down :: env where
  "model_down = all_fine\<lparr>converse := (\<lambda>log prompt. Inl (ClientError ''ThrottlingException''))\<rparr>"

text \<open>Every submission reports a programming error.\<close>

definition db_rejects :: env where
  "db_rejects = all_fine\<lparr>execute := (\<lambda>log sql. Inl (ProgrammingError ''SQL compilation error''))\<rparr>"

text \<open>
  A submission is accepted only when it comes right after a model call, that is, when it
  is the retry that follows a repair; a prompt that comes right after a submission (the
  repair prompt) is answered with another body than the translation.
\<close>

definition repair_works :: env where
  "repair_works =
     all_fine
       \<lparr>execute := (\<lambda>log sql. case rev log of
                       Converse _ # _ \<Rightarrow> Inr ()
                     | _ \<Rightarrow> Inl (ProgrammingError ''SQL compilation error'')),
        converse := (\<lambda>log prompt. case rev log of
                       Execute _ # _ \<Rightarrow> Inr fenced_repair
                     | _ \<Rightarrow> Inr fenced_procedure)\<rparr>"

text \<open>The connection cannot be established.\<close>

definition connect_fails :: env where
  "connect_fails = all_fine\<lparr>connect := (\<lambda>log. Inl (OtherException ''250001: could not connect''))\<rparr>"

text \<open>A submission fails with an error that is not a programming error.\<close>

definition db_lost :: env where
  "db_lost = all_fine\<lparr>execute := (\<lambda>log sql. Inl (OtherException ''session no longer exists''))\<rparr>"

text \<open>The model answers its first call only.\<close>

definition model_answers_once :: env where
  "model_answers_once =
     all_fine\<lparr>converse := (\<lambda>log prompt. if model_calls log = 0 then Inr fenced_procedure
                                        else Inl (ClientError ''ThrottlingException''))\<rparr>"

text \<open>The model answers with a fenced block that holds only white space.\<close>

definition empty_block :: env where
  "empty_block = all_fine\<lparr>converse := (\<lambda>log prompt. Inr ''```sql  \<newline>```'')\<rparr>"

text \<open>
  Every submission reports a programming error, and the model answers the repair prompt
  with a fenced block that holds only white space.
\<close>

definition rejects_blank_repair :: env where
  "rejects_blank_repair =
     db_rejects\<lparr>converse := (\<lambda>log prompt. Inr ''```sql  \<newline>```'')\<rparr>"

definition script_a :: uploaded_file where
  "script_a = \<lparr>name = ''a.sql'', content = Some ''CREATE PROCEDURE p AS BEGIN SELECT 1 END''\<rparr>"

definition script_b :: uploaded_file where
  "script_b = \<lparr>name = ''b.sql'', content = Some ''CREATE PROCEDURE q AS BEGIN SELECT 2 END''\<rparr>"

section \<open>Properties\<close>

subsection \<open>The response extractor\<close>

text \<open>
  \<open>find_at\<close> answers \<open>-1\<close> exactly when the pattern does not occur, and otherwise the
  position of the first occurrence: the text before it, extended by all but the last
  character of the pattern, holds no occurrence.
\<close>

lemma find_at_none: "find_at sub s i = - 1 \<longleftrightarrow> \<not> sublist sub s"
  by (induction s arbitrary: i) (auto simp: sublist_Cons_right)

lemma prefix_of_longer_append:
  assumes "prefix xs (ys @ zs)" and "length xs \<le> length ys"
  shows "prefix xs ys"
  using assms by (metis prefix_length_prefix prefixI)

lemma find_at_first:
  assumes "sub \<noteq> []" and "\<not> sublist sub (pre @ butlast sub)"
  shows "find_at sub (pre @ sub @ post) i = int (i + length pre)"
  using assms(2)
proof (induction pre arbitrary: i)
  case Nil
  from assms(1) obtain a as where "sub = a # as" by (cases sub) auto
  then show ?case by simp
next
  case (Cons p ps)
  have split: "(p # ps) @ sub @ post = ((p # ps) @ butlast sub) @ [last sub] @ post"
    using append_butlast_last_id [OF assms(1)] by (metis append.assoc)
  have "\<not> prefix sub ((p # ps) @ sub @ post)"
  proof
    assume "prefix sub ((p # ps) @ sub @ post)"
    then have "prefix sub (((p # ps) @ butlast sub) @ [last sub] @ post)"
      by (simp only: split)
    moreover have "length sub \<le> length ((p # ps) @ butlast sub)"
      using assms(1) by simp
    ultimately have "prefix sub ((p # ps) @ butlast sub)"
      by (rule prefix_of_longer_append)
    then have "sublist sub ((p # ps) @ butlast sub)"
      by (rule prefix_imp_sublist)
    with Cons.prems show False by simp
  qed
  moreover have "\<not> sublist sub (ps @ butlast sub)"
    using Cons.prems by (simp add: sublist_Cons_right)
  ultimately show ?case
    using Cons.IH [of "Suc i"] by simp
qed

lemma find_at_found:
  assumes "sub \<noteq> []" and "find_at sub s i \<noteq> - 1"
  shows "\<exists>pre post. s = pre @ sub @ post \<and> \<not> sublist sub (pre @ butlast sub)
           \<and> find_at sub s i = int (i + length pre)"
  using assms(2)
proof (induction s arbitrary: i)
  case Nil
  with assms(1) show ?case by simp
next
  case (Cons c cs)
  show ?case
  proof (cases "prefix sub (c # cs)")
    case True
    then obtain post where "c # cs = sub @ post" by (auto simp: prefix_def)
    moreover have "\<not> sublist sub (butlast sub)"
      using assms(1) sublist_length_le [of sub "butlast sub"] by (cases sub) auto
    moreover have "find_at sub (c # cs) i = int i" using True by simp
    ultimately show ?thesis by (intro exI [of _ "[]"] exI [of _ post]) simp
  next
    case False
    then have "find_at sub cs (Suc i) \<noteq> - 1" using Cons.prems by simp
    from Cons.IH [OF this] obtain pre post where
      cs: "cs = pre @ sub @ post" and nsub: "\<not> sublist sub (pre @ butlast sub)"
      and idx: "find_at sub cs (Suc i) = int (Suc i + length pre)" by blast
    have "\<not> prefix sub ((c # pre) @ butlast sub)"
    proof
      assume "prefix sub ((c # pre) @ butlast sub)"
      then have "prefix sub (((c # pre) @ butlast sub) @ [last sub] @ post)"
        by (rule prefix_prefix)
      moreover have "((c # pre) @ butlast sub) @ [last sub] @ post = c # cs"
        using append_butlast_last_id [OF assms(1)] cs by (metis append.assoc append_Cons)
      ultimately have "prefix sub (c # cs)" by simp
      with False show False by simp
    qed
    with nsub have "\<not> sublist sub ((c # pre) @ butlast sub)"
      by (simp add: sublist_Cons_right)
    moreover have "c # cs = (c # pre) @ sub @ post" using cs by simp
    moreover have "find_at sub (c # cs) i = int (i + length (c # pre))"
      using False idx by simp
    ultimately show ?thesis by blast
  qed
qed


lemma py_find_zero: "py_find s sub 0 = find_at sub s 0"
  by (simp add: py_find_def Let_def)

lemma py_find_after:
  assumes "t = pre @ mk @ rest" and "int (length mk) = k"
  shows "py_find t sub (int (length pre) + k) = find_at sub rest (length pre + length mk)"
proof -
  have "nat (int (length pre) + int (length mk)) = length pre + length mk"
    by (simp add: nat_int_add)
  then show ?thesis
    using assms by (auto simp: py_find_def Let_def)
qed

lemma py_slice_mid:
  assumes "t = pre @ mk @ mid @ post" and "int (length mk) = k"
  shows "py_slice t (int (length pre) + k) (int (length pre + length mk + length mid)) = mid"
proof -
  have "nat (int (length pre) + int (length mk)) = length pre + length mk"
    by (simp add: nat_int_add)
  then show ?thesis
    using assms by (auto simp: py_slice_def Let_def)
qed

lemma find_open_first:
  assumes "t = pre @ ''```sql'' @ rest" and "\<not> sublist ''```sql'' (pre @ ''```sq'')"
  shows "py_find t ''```sql'' 0 = int (length pre)"
proof -
  have "find_at ''```sql'' (pre @ ''```sql'' @ rest) 0 = int (0 + length pre)"
    by (rule find_at_first) (use assms(2) in simp_all)
  then show ?thesis
    unfolding py_find_zero assms(1) by simp
qed

lemma extract_at_open:
  assumes "t = pre @ ''```sql'' @ rest" and "\<not> sublist ''```sql'' (pre @ ''```sq'')"
  shows "extract_sql_block t =
           (if find_at ''```'' rest (length pre + length ''```sql'') = - 1 then None
            else Some (strip (py_slice t (int (length pre) + 6)
                          (find_at ''```'' rest (length pre + length ''```sql'')))))"
proof -
  have s: "py_find t ''```sql'' 0 = int (length pre)"
    using assms by (rule find_open_first)
  have e: "py_find t ''```'' (int (length pre) + 6)
             = find_at ''```'' rest (length pre + length ''```sql'')"
    using assms(1) by (rule py_find_after) simp
  show ?thesis
    unfolding extract_sql_block_def Let_def s e by simp
qed

lemma extract_found:
  assumes "t = pre @ ''```sql'' @ mid @ ''```'' @ post"
    and "\<not> sublist ''```sql'' (pre @ ''```sq'')" and "\<not> sublist ''```'' (mid @ ''``'')"
  shows "extract_sql_block t = Some (strip mid)"
proof -
  have f: "find_at ''```'' (mid @ ''```'' @ post) (length pre + length ''```sql'')
             = int (length pre + length ''```sql'' + length mid)"
    by (rule find_at_first) (use assms(3) in simp_all)
  have sl: "py_slice t (int (length pre) + 6)
              (int (length pre + length ''```sql'' + length mid)) = mid"
    using assms(1) by (rule py_slice_mid) simp
  show ?thesis
    unfolding extract_at_open [OF assms(1,2)] f sl by simp
qed

lemma extract_unterminated:
  assumes "t = pre @ ''```sql'' @ rest"
    and "\<not> sublist ''```sql'' (pre @ ''```sq'')" and "\<not> sublist ''```'' rest"
  shows "extract_sql_block t = None"
  unfolding extract_at_open [OF assms(1,2)] using assms(3) by (simp add: find_at_none)

lemma extract_no_open:
  assumes "\<not> sublist ''```sql'' t"
  shows "extract_sql_block t = None"
proof -
  have "py_find t ''```sql'' 0 = - 1"
    using assms by (simp add: py_find_zero find_at_none)
  then show ?thesis by (simp add: extract_sql_block_def Let_def)
qed

lemma open_cases:
  obtains (no_open) "\<not> sublist ''```sql'' t"
  | (unterminated) pre rest where "t = pre @ ''```sql'' @ rest"
      "\<not> sublist ''```sql'' (pre @ ''```sq'')" "\<not> sublist ''```'' rest"
  | (block) pre mid post where "t = pre @ ''```sql'' @ mid @ ''```'' @ post"
      "\<not> sublist ''```sql'' (pre @ ''```sq'')" "\<not> sublist ''```'' (mid @ ''``'')"
proof (cases "sublist ''```sql'' t")
  case False
  then show ?thesis by (rule no_open)
next
  case True
  then have "find_at ''```sql'' t 0 \<noteq> - 1" by (simp add: find_at_none)
  then obtain pre rest where t: "t = pre @ ''```sql'' @ rest"
    and first: "\<not> sublist ''```sql'' (pre @ butlast ''```sql'')"
    using find_at_found [of "''```sql''" t 0] by auto
  from first have first': "\<not> sublist ''```sql'' (pre @ ''```sq'')"
    by simp
  show ?thesis
  proof (cases "sublist ''```'' rest")
    case False
    with t first' show ?thesis by (rule unterminated)
  next
    case True
    then have "find_at ''```'' rest 0 \<noteq> - 1" by (simp add: find_at_none)
    then obtain mid post where r: "rest = mid @ ''```'' @ post"
      and nxt: "\<not> sublist ''```'' (mid @ butlast ''```'')"
      using find_at_found [of "''```''" rest 0] by auto
    from nxt have nxt': "\<not> sublist ''```'' (mid @ ''``'')" by simp
    from t r have "t = pre @ ''```sql'' @ mid @ ''```'' @ post" by (simp only:)
    then show ?thesis using first' nxt' by (rule block)
  qed
qed

text \<open>
  Claim C4. The extractor returns the stripped text between the first opening marker
  \<^verbatim>\<open>```sql\<close> and the next closing marker \<^verbatim>\<open>```\<close> after it when both exist, and
  nothing else; it returns \<open>None\<close> exactly when the text has no opening marker, or has
  one that no closing marker follows. "First" and "next" are stated by the absence of
  an earlier occurrence: none in \<open>pre\<close> extended by five characters of the opening
  marker, none in \<open>mid\<close> extended by two backquotes.
\<close>

theorem extract_sql_block_spec:
  "(extract_sql_block t = Some r \<longleftrightarrow>
      (\<exists>pre mid post. t = pre @ ''```sql'' @ mid @ ''```'' @ post
         \<and> \<not> sublist ''```sql'' (pre @ ''```sq'')
         \<and> \<not> sublist ''```'' (mid @ ''``'')
         \<and> r = strip mid))
   \<and> (extract_sql_block t = None \<longleftrightarrow>
      (\<not> sublist ''```sql'' t
       \<or> (\<exists>pre rest. t = pre @ ''```sql'' @ rest
            \<and> \<not> sublist ''```sql'' (pre @ ''```sq'')
            \<and> \<not> sublist ''```'' rest)))"
  (is "(?L1 \<longleftrightarrow> ?R1) \<and> (?L2 \<longleftrightarrow> ?R2)")
proof -
  have r1: ?L1 if ?R1
  proof -
    from that obtain pre mid post where d: "t = pre @ ''```sql'' @ mid @ ''```'' @ post"
      "\<not> sublist ''```sql'' (pre @ ''```sq'')" "\<not> sublist ''```'' (mid @ ''``'')"
      and r: "r = strip mid" by blast
    from d have "extract_sql_block t = Some (strip mid)" by (rule extract_found)
    with r show ?thesis by simp
  qed
  have r2: ?L2 if ?R2
    using that
  proof
    assume "\<not> sublist ''```sql'' t"
    then show ?thesis by (rule extract_no_open)
  next
    assume "\<exists>pre rest. t = pre @ ''```sql'' @ rest
            \<and> \<not> sublist ''```sql'' (pre @ ''```sq'') \<and> \<not> sublist ''```'' rest"
    then obtain pre rest where "t = pre @ ''```sql'' @ rest"
      "\<not> sublist ''```sql'' (pre @ ''```sq'')" "\<not> sublist ''```'' rest" by blast
    then show ?thesis by (rule extract_unterminated)
  qed
  have none_some: "\<not> ?L1" if ?L2
    using that by simp
  have some_none: "\<not> ?L2" if ?L1
    using that by simp
  show ?thesis
  proof (cases t rule: open_cases)
    case no_open
    then have ?R2 ..
    then have ?L2 by (rule r2)
    with r1 r2 \<open>?R2\<close> none_some show ?thesis by argo
  next
    case (unterminated pre rest)
    then have ?R2 by (intro disjI2 exI conjI)
    then have ?L2 by (rule r2)
    with r1 r2 \<open>?R2\<close> none_some show ?thesis by argo
  next
    case (block pre mid post)
    then have s: "extract_sql_block t = Some (strip mid)" by (rule extract_found)
    have l1: ?R1 if ?L1
    proof -
      from that s have "r = strip mid" by simp
      with block show ?thesis by (intro exI conjI)
    qed
    have "\<not> ?L2" using s by simp
    with r1 r2 l1 show ?thesis by argo
  qed
qed

theorem extract_sql_block_spec_witness:
  "extract_sql_block ''x```sql SELECT 1; ```y'' = Some ''SELECT 1;''
   \<and> extract_sql_block ''no fence here'' = None
   \<and> extract_sql_block ''```sql SELECT 1;'' = None"
proof (intro conjI)
  have "\<exists>pre mid post. ''x```sql SELECT 1; ```y'' = pre @ ''```sql'' @ mid @ ''```'' @ post
         \<and> \<not> sublist ''```sql'' (pre @ ''```sq'')
         \<and> \<not> sublist ''```'' (mid @ ''``'')
         \<and> ''SELECT 1;'' = strip mid"
    by (rule exI [of _ "''x''"], rule exI [of _ "'' SELECT 1; ''"], rule exI [of _ "''y''"])
      (simp add: sublist_Cons_right strip_def isspace_def)
  then show "extract_sql_block ''x```sql SELECT 1; ```y'' = Some ''SELECT 1;''"
    using extract_sql_block_spec [of "''x```sql SELECT 1; ```y''" "''SELECT 1;''"] by blast
next
  have "\<not> sublist ''```sql'' ''no fence here''"
    by (simp add: sublist_Cons_right)
  then show "extract_sql_block ''no fence here'' = None"
    using extract_sql_block_spec [of "''no fence here''" "[]"] by blast
next
  have "\<exists>pre rest. ''```sql SELECT 1;'' = pre @ ''```sql'' @ rest
            \<and> \<not> sublist ''```sql'' (pre @ ''```sq'')
            \<and> \<not> sublist ''```'' rest"
    by (rule exI [of _ "[]"], rule exI [of _ "'' SELECT 1;''"])
      (simp add: sublist_Cons_right)
  then show "extract_sql_block ''```sql SELECT 1;'' = None"
    using extract_sql_block_spec [of "''```sql SELECT 1;''" "[]"] by blast
qed

subsection \<open>The two model calls\<close>

text \<open>
  Claim C7. When the model invocation of \<^verbatim>\<open>convert_procedure\<close> or of
  \<^verbatim>\<open>procedure_error_rtry\<close> raises, the function prints one line that names the model
  and the reason and returns \<open>None\<close>, the value it also returns for a response without
  a fenced block. Both functions return a plain optional string: no exception leaves
  them.
\<close>

theorem model_failure_is_logged_and_absent:
  "(converse env log (convert_prompt sql_code) = Inl e \<longrightarrow>
      convert_procedure env log sql_code =
        (None, log @ [Converse (convert_prompt sql_code),
                      Print (''ERROR: Can'' @ [CHR 0x27] @ ''t invoke '' @ [CHR 0x27]
                             @ model_id @ [CHR 0x27] @ ''. Reason: '' @ str_exn e)]))
   \<and> (converse env log (repair_prompt sql_code error) = Inl e \<longrightarrow>
      procedure_error_rtry env connection log sql_code error =
        (None, log @ [Converse (repair_prompt sql_code error),
                      Print (''ERROR: Can'' @ [CHR 0x27] @ ''t invoke '' @ [CHR 0x27]
                             @ model_id @ [CHR 0x27] @ ''. Reason: '' @ str_exn e)]))
   \<and> (converse env log (convert_prompt sql_code) = Inr response_text
        \<and> extract_sql_block response_text = None \<longrightarrow>
      fst (convert_procedure env log sql_code) = None)
   \<and> (converse env log (repair_prompt sql_code error) = Inr response_text
        \<and> extract_sql_block response_text = None \<longrightarrow>
      fst (procedure_error_rtry env connection log sql_code error) = None)"
  by (simp add: convert_procedure_def procedure_error_rtry_def invoke_error_line_def)

theorem model_failure_is_logged_and_absent_witness:
  "convert_procedure model_down [] ''SELECT 1'' =
     (None, [Converse (convert_prompt ''SELECT 1''),
             Print (''ERROR: Can'' @ [CHR 0x27] @ ''t invoke '' @ [CHR 0x27]
                    @ ''anthropic.claude-3-5-sonnet-20240620-v1:0'' @ [CHR 0x27]
                    @ ''. Reason: ThrottlingException'')])
   \<and> procedure_error_rtry model_down (SnowflakeConnection 1) [] ''SELECT 1'' ''syntax error'' =
     (None, [Converse (repair_prompt ''SELECT 1'' ''syntax error''),
             Print (''ERROR: Can'' @ [CHR 0x27] @ ''t invoke '' @ [CHR 0x27]
                    @ ''anthropic.claude-3-5-sonnet-20240620-v1:0'' @ [CHR 0x27]
                    @ ''. Reason: ThrottlingException'')])
   \<and> fst (convert_procedure no_block [] ''SELECT 1'') = None
   \<and> fst (procedure_error_rtry no_block (SnowflakeConnection 1) [] ''SELECT 1'' ''syntax error'')
       = None"
proof -
  have d1: "converse model_down [] (convert_prompt ''SELECT 1'')
              = Inl (ClientError ''ThrottlingException'')"
    and d2: "converse model_down [] (repair_prompt ''SELECT 1'' ''syntax error'')
              = Inl (ClientError ''ThrottlingException'')"
    by (simp_all add: model_down_def all_fine_def)
  have x: "extract_sql_block ''I cannot convert this procedure.'' = None"
    by code_simp
  have n1: "converse no_block [] (convert_prompt ''SELECT 1'')
              = Inr ''I cannot convert this procedure.''"
    and n2: "converse no_block [] (repair_prompt ''SELECT 1'' ''syntax error'')
              = Inr ''I cannot convert this procedure.''"
    by (simp_all add: no_block_def all_fine_def)
  show ?thesis
    using
      model_failure_is_logged_and_absent [where env = model_down and log = "[]"
        and sql_code = "''SELECT 1''" and e = "ClientError ''ThrottlingException''"
        and error = "''syntax error''" and connection = "SnowflakeConnection 1"
        and response_text = "[]"]
      model_failure_is_logged_and_absent [where env = no_block and log = "[]"
        and sql_code = "''SELECT 1''" and e = "ClientError ''ThrottlingException''"
        and error = "''syntax error''" and connection = "SnowflakeConnection 1"
        and response_text = "''I cannot convert this procedure.''"]
      d1 d2 n1 n2 x
    by (simp add: model_id_def)
qed

text \<open>
  Claim C10. \<^verbatim>\<open>procedure_error_rtry\<close> never reads its connection argument: two calls
  that differ only in the connection return the same result and leave the same log.
\<close>

theorem procedure_error_rtry_ignores_connection:
  "procedure_error_rtry env connection1 log sql_code error
     = procedure_error_rtry env connection2 log sql_code error"
  by (simp add: procedure_error_rtry_def)

theorem procedure_error_rtry_ignores_connection_witness:
  "procedure_error_rtry repair_works (SnowflakeConnection 1) [Execute ''SELECT 1'']
      ''SELECT 1'' ''syntax error''
     = procedure_error_rtry repair_works (SnowflakeConnection 2) [Execute ''SELECT 1'']
      ''SELECT 1'' ''syntax error''"
  by (rule procedure_error_rtry_ignores_connection)

subsection \<open>Registration\<close>

text \<open>What the two model calls add to the log.\<close>

lemma procedure_error_rtry_log:
  assumes "procedure_error_rtry env connection log sql_code error = (r, log')"
  shows "log' = log @ [Converse (repair_prompt sql_code error)]
         \<or> (\<exists>line. log' = log @ [Converse (repair_prompt sql_code error), Print line])"
  using assms by (auto simp: procedure_error_rtry_def Let_def split: sum.splits)

lemma convert_procedure_log:
  assumes "convert_procedure env log sql_code = (r, log')"
  shows "log' = log @ [Converse (convert_prompt sql_code)]
         \<or> (\<exists>line. log' = log @ [Converse (convert_prompt sql_code), Print line])"
  using assms by (auto simp: convert_procedure_def Let_def split: sum.splits)

lemma procedure_error_rtry_Some:
  assumes "procedure_error_rtry env connection log sql_code error = (Some c, log')"
  shows "log' = log @ [Converse (repair_prompt sql_code error)]"
  using assms by (auto simp: procedure_error_rtry_def Let_def split: sum.splits)

text \<open>The extractor on the responses of the stub models.\<close>

lemma extract_fenced_procedure:
  "extract_sql_block fenced_procedure
     = Some ''CREATE PROCEDURE p() RETURNS INT AS BEGIN RETURN 1; END''"
  by code_simp

lemma extract_fenced_repair:
  "extract_sql_block fenced_repair
     = Some ''CREATE OR REPLACE PROCEDURE p() RETURNS INT AS BEGIN RETURN 1; END;''"
  by code_simp

lemma extract_blank_block: "extract_sql_block ''```sql  \<newline>```'' = Some []"
  by code_simp

lemma extract_no_fence: "extract_sql_block [] = None"
  by code_simp

text \<open>
  Claim C2, as the code has it. Take a session in which the cursor is acquired and every
  submission reports a programming error, and a repair call that returns a non-empty
  body (one that \<^verbatim>\<open>if corrected_sql_code:\<close> counts as true). Then
  \<^verbatim>\<open>create_stored_procedure_in_snowflake\<close> submits twice, calls the model once, closes
  the cursor and returns \<^verbatim>\<open>False\<close>: the log grows by exactly these five events.
\<close>

theorem registration_retries_once:
  assumes cur: "cursor env log = Inr ()"
    and db: "\<forall>l s. \<exists>m. execute env l s = Inl (ProgrammingError m)"
    and rep: "\<forall>l m. truthy (fst (procedure_error_rtry env connection l sql_code m))"
  shows "\<exists>m c. create_stored_procedure_in_snowflake env connection log sql_code =
           (Inr False,
            log @ [OpenCursor, Execute sql_code, Converse (repair_prompt sql_code m),
                   Execute c, CloseCursor])
         \<and> submissions (snd (create_stored_procedure_in_snowflake env connection log sql_code))
             = submissions log + 2
         \<and> model_calls (snd (create_stored_procedure_in_snowflake env connection log sql_code))
             = model_calls log + 1"
proof -
  from db obtain m where e1: "execute env (log @ [OpenCursor]) sql_code = Inl (ProgrammingError m)"
    by blast
  obtain r log1 where rt:
    "procedure_error_rtry env connection (log @ [OpenCursor, Execute sql_code]) sql_code m = (r, log1)"
    by (cases "procedure_error_rtry env connection (log @ [OpenCursor, Execute sql_code]) sql_code m")
  from rep have "truthy (fst (procedure_error_rtry env connection
                     (log @ [OpenCursor, Execute sql_code]) sql_code m))" by blast
  with rt have tr: "truthy r" by simp
  then obtain c where r: "r = Some c" and c: "c \<noteq> []" by (cases r) auto
  from rt r have log1: "log1 = log @ [OpenCursor, Execute sql_code] @ [Converse (repair_prompt sql_code m)]"
    using procedure_error_rtry_Some by fastforce
  from db obtain m2 where e2: "execute env log1 c = Inl (ProgrammingError m2)" by blast
  have res: "create_stored_procedure_in_snowflake env connection log sql_code =
           (Inr False,
            log @ [OpenCursor, Execute sql_code, Converse (repair_prompt sql_code m),
                   Execute c, CloseCursor])"
    using cur e1 rt r c e2 log1 by (simp add: create_stored_procedure_in_snowflake_def)
  show ?thesis
    by (intro exI [of _ m] exI [of _ c]) (simp add: res submissions_def model_calls_def)
qed

theorem registration_retries_once_witness:
  "fst (create_stored_procedure_in_snowflake db_rejects (SnowflakeConnection 1) []
          ''CREATE PROCEDURE p'') = Inr False
   \<and> submissions (snd (create_stored_procedure_in_snowflake db_rejects (SnowflakeConnection 1) []
          ''CREATE PROCEDURE p'')) = 2
   \<and> model_calls (snd (create_stored_procedure_in_snowflake db_rejects (SnowflakeConnection 1) []
          ''CREATE PROCEDURE p'')) = 1"
proof -
  have h1: "cursor db_rejects [] = Inr ()"
    by (simp add: db_rejects_def all_fine_def)
  have h2: "\<forall>l s. \<exists>m. execute db_rejects l s = Inl (ProgrammingError m)"
    by (simp add: db_rejects_def all_fine_def)
  have h3: "\<forall>l m. truthy (fst (procedure_error_rtry db_rejects (SnowflakeConnection 1) l
                ''CREATE PROCEDURE p'' m))"
    by (simp add: procedure_error_rtry_def db_rejects_def all_fine_def extract_fenced_procedure)
  show ?thesis
    using registration_retries_once [OF h1 h2 h3]
    by (auto simp: submissions_def model_calls_def)
qed

text \<open>
  Claim C2 as stated fails: every submission reports a programming error and the repair
  call returns a body, the empty string, which is not \<open>None\<close>; the test
  \<^verbatim>\<open>if corrected_sql_code:\<close> is false for it, so the function submits once, calls the
  model once and returns \<^verbatim>\<open>False\<close> without a second submission.
\<close>

theorem blank_repair_is_not_retried:
  "execute rejects_blank_repair [OpenCursor] ''CREATE PROCEDURE p''
     = Inl (ProgrammingError ''SQL compilation error'')
   \<and> fst (procedure_error_rtry rejects_blank_repair (SnowflakeConnection 1)
            [OpenCursor, Execute ''CREATE PROCEDURE p''] ''CREATE PROCEDURE p''
            ''SQL compilation error'') = Some []
   \<and> create_stored_procedure_in_snowflake rejects_blank_repair (SnowflakeConnection 1) []
        ''CREATE PROCEDURE p''
       = (Inr False,
          [OpenCursor,
           Execute ''CREATE PROCEDURE p'',
           Converse (repair_prompt ''CREATE PROCEDURE p'' ''SQL compilation error''),
           CloseCursor])
   \<and> submissions (snd (create_stored_procedure_in_snowflake rejects_blank_repair
                          (SnowflakeConnection 1) [] ''CREATE PROCEDURE p'')) = 1"
  by (simp add: create_stored_procedure_in_snowflake_def procedure_error_rtry_def
      rejects_blank_repair_def db_rejects_def all_fine_def extract_blank_block submissions_def)

text \<open>
  The shape of the log when the cursor was acquired: the call that opens the cursor,
  then submissions, model calls and printed lines, then the call that closes it.
\<close>

lemma registration_log_acquired:
  assumes "cursor env log = Inr ()"
  shows "\<exists>mid. snd (create_stored_procedure_in_snowflake env connection log sql_code)
                 = log @ [OpenCursor] @ mid @ [CloseCursor]
               \<and> set mid \<subseteq> range Execute \<union> range Converse \<union> range Print"
proof (cases "execute env (log @ [OpenCursor]) sql_code")
  case (Inr u)
  with assms have "snd (create_stored_procedure_in_snowflake env connection log sql_code)
      = log @ [OpenCursor] @ [Execute sql_code] @ [CloseCursor]"
    by (simp add: create_stored_procedure_in_snowflake_def)
  then show ?thesis by (intro exI [of _ "[Execute sql_code]"]) simp
next
  case (Inl e)
  show ?thesis
  proof (cases "\<exists>msg. e = ProgrammingError msg")
    case False
    with assms Inl have "snd (create_stored_procedure_in_snowflake env connection log sql_code)
        = log @ [OpenCursor] @ [Execute sql_code] @ [CloseCursor]"
      by (cases e) (simp_all add: create_stored_procedure_in_snowflake_def)
    then show ?thesis by (intro exI [of _ "[Execute sql_code]"]) simp
  next
    case True
    then obtain msg where e: "e = ProgrammingError msg" by blast
    obtain r log1 where rt:
      "procedure_error_rtry env connection (log @ [OpenCursor, Execute sql_code]) sql_code msg
         = (r, log1)"
      by (cases "procedure_error_rtry env connection (log @ [OpenCursor, Execute sql_code])
                   sql_code msg")
    from procedure_error_rtry_log [OF rt] obtain ext where
      log1: "log1 = log @ [OpenCursor] @ (Execute sql_code # ext)"
      and ext: "set ext \<subseteq> range Converse \<union> range Print"
      by auto
    show ?thesis
    proof (cases "truthy r")
      case False
      with assms Inl e rt have
        "snd (create_stored_procedure_in_snowflake env connection log sql_code)
           = log1 @ [CloseCursor]"
        by (simp add: create_stored_procedure_in_snowflake_def)
      with log1 ext show ?thesis
        by (intro exI [of _ "Execute sql_code # ext"]) auto
    next
      case True
      with assms Inl e rt have
        "snd (create_stored_procedure_in_snowflake env connection log sql_code)
           = log1 @ [Execute (the r), CloseCursor]"
        by (auto simp: create_stored_procedure_in_snowflake_def split: sum.splits exn.splits)
      with log1 ext show ?thesis
        by (intro exI [of _ "Execute sql_code # ext @ [Execute (the r)]"]) auto
    qed
  qed
qed

text \<open>
  When \<^verbatim>\<open>connection.cursor()\<close> raises, the \<^verbatim>\<open>finally\<close> clause fails on the unbound
  variable: the function raises \<^verbatim>\<open>UnboundLocalError\<close> and closes nothing.
\<close>

lemma cursor_unbound_when_not_acquired:
  assumes "cursor env log = Inl e"
  shows "fst (create_stored_procedure_in_snowflake env connection log sql_code)
           = Inl (UnboundLocalError ''cursor'')"
    and "CloseCursor \<notin> set (drop (length log)
            (snd (create_stored_procedure_in_snowflake env connection log sql_code)))"
  using assms
  by (auto simp: create_stored_procedure_in_snowflake_def procedure_error_rtry_def Let_def
      split: exn.splits sum.splits prod.splits)

text \<open>
  Claim C5, as the code has it. The function acquires one cursor per call, not one per
  submission. Whenever that cursor is acquired it is used for the first submission and
  for the retried one, and it is closed exactly once, as the last event of the call, on
  every way out: \<^verbatim>\<open>True\<close>, \<^verbatim>\<open>False\<close>, or an exception that is not a programming
  error.
\<close>

theorem cursor_closed_once_at_exit:
  assumes "cursor env log = Inr ()"
  shows "\<exists>mid. snd (create_stored_procedure_in_snowflake env connection log sql_code)
                 = log @ [OpenCursor] @ mid @ [CloseCursor]
               \<and> OpenCursor \<notin> set mid \<and> CloseCursor \<notin> set mid"
proof -
  from registration_log_acquired [OF assms] obtain mid where
    "snd (create_stored_procedure_in_snowflake env connection log sql_code)
       = log @ [OpenCursor] @ mid @ [CloseCursor]"
    and "set mid \<subseteq> range Execute \<union> range Converse \<union> range Print"
    by blast
  then show ?thesis by (intro exI [of _ mid]) auto
qed

theorem cursor_closed_once_at_exit_witness:
  "cursor repair_works [] = Inr ()
   \<and> (\<exists>mid. snd (create_stored_procedure_in_snowflake repair_works (SnowflakeConnection 1) []
                 ''CREATE PROCEDURE p'')
            = [] @ [OpenCursor] @ mid @ [CloseCursor]
          \<and> OpenCursor \<notin> set mid \<and> CloseCursor \<notin> set mid)"
proof -
  have h: "cursor repair_works [] = Inr ()"
    by (simp add: repair_works_def all_fine_def)
  from h cursor_closed_once_at_exit [OF h] show ?thesis by (rule conjI)
qed

text \<open>
  Claim C5 as stated fails: with a database that rejects both submissions, no
  \<open>CloseCursor\<close> stands between the first submission and the retried one; the only one
  is the last event.
\<close>

theorem cursor_kept_between_attempts:
  "create_stored_procedure_in_snowflake db_rejects (SnowflakeConnection 1) []
      ''CREATE PROCEDURE p''
     = (Inr False,
        [OpenCursor,
         Execute ''CREATE PROCEDURE p'',
         Converse (repair_prompt ''CREATE PROCEDURE p'' ''SQL compilation error''),
         Execute ''CREATE PROCEDURE p() RETURNS INT AS BEGIN RETURN 1; END'',
         CloseCursor])
   \<and> CloseCursor \<notin> set (take 4 (snd (create_stored_procedure_in_snowflake db_rejects
                                          (SnowflakeConnection 1) [] ''CREATE PROCEDURE p'')))"
  by (simp add: create_stored_procedure_in_snowflake_def procedure_error_rtry_def
      db_rejects_def all_fine_def extract_fenced_procedure)


subsection \<open>One file of the batch\<close>

text \<open>
  Claim C8. A file whose translation is registered only at the second attempt, after a
  repair, is recorded as created, and its archive entry holds the body the translation
  returned; the repaired body, whatever it is, appears in the log only.
\<close>

theorem repair_leaves_archive_entry:
  assumes "content f = Some sql_code"
    and "process_sql_code env log sql_code = (Some body, log1)"
    and "body \<noteq> []"
    and "cursor env log1 = Inr ()"
    and "execute env (log1 @ [OpenCursor]) body = Inl (ProgrammingError msg)"
    and "procedure_error_rtry env snowflake_connection (log1 @ [OpenCursor, Execute body]) body msg
           = (Some repaired, log2)"
    and "repaired \<noteq> []"
    and "execute env log2 repaired = Inr ()"
  shows "process_file env snowflake_connection f rep log =
           (Inr (rep\<lparr>converted_files := converted_files rep @ [(basename (name f), body)],
                     created_successfully := created_successfully rep @ [basename (name f)]\<rparr>),
            log2 @ [Execute repaired, CloseCursor])"
  using assms
  by (simp add: process_file_def create_stored_procedure_in_snowflake_def)

lemma basename_a: "basename (name script_a) = ''a.sql''"
  by (simp add: script_a_def basename_def)

theorem repair_leaves_archive_entry_witness:
  "fst (main repair_works True [script_a])
     = Inr (Some \<lparr>converted_files =
                     [(''a.sql'', ''CREATE PROCEDURE p() RETURNS INT AS BEGIN RETURN 1; END'')],
                  created_successfully = [''a.sql''],
                  not_created_files = []\<rparr>)
   \<and> Execute ''CREATE OR REPLACE PROCEDURE p() RETURNS INT AS BEGIN RETURN 1; END;''
       \<in> set (snd (main repair_works True [script_a]))"
proof -
  let ?sql = "''CREATE PROCEDURE p AS BEGIN SELECT 1 END''"
  let ?body = "''CREATE PROCEDURE p() RETURNS INT AS BEGIN RETURN 1; END''"
  let ?fixed = "''CREATE OR REPLACE PROCEDURE p() RETURNS INT AS BEGIN RETURN 1; END;''"
  let ?log1 = "ui_start @ [Connect, Converse (convert_prompt ?sql)]"
  let ?log2 = "?log1 @ [OpenCursor, Execute ?body,
                        Converse (repair_prompt ?body ''SQL compilation error'')]"
  have h1: "content script_a = Some ?sql"
    by (simp add: script_a_def)
  have h2: "process_sql_code repair_works (ui_start @ [Connect]) ?sql = (Some ?body, ?log1)"
    by (simp add: process_sql_code_def convert_procedure_def repair_works_def all_fine_def
        extract_fenced_procedure)
  have h3: "?body \<noteq> []" by simp
  have h4: "cursor repair_works ?log1 = Inr ()"
    by (simp add: repair_works_def all_fine_def)
  have h5: "execute repair_works (?log1 @ [OpenCursor]) ?body
              = Inl (ProgrammingError ''SQL compilation error'')"
    by (simp add: repair_works_def all_fine_def)
  have h6: "procedure_error_rtry repair_works (SnowflakeConnection 1)
              (?log1 @ [OpenCursor, Execute ?body]) ?body ''SQL compilation error''
              = (Some ?fixed, ?log2)"
    by (simp add: procedure_error_rtry_def repair_works_def all_fine_def extract_fenced_repair)
  have h7: "?fixed \<noteq> []" by simp
  have h8: "execute repair_works ?log2 ?fixed = Inr ()"
    by (simp add: repair_works_def all_fine_def)
  have c: "connect repair_works ui_start = Inr (SnowflakeConnection 1)"
    by (simp add: repair_works_def all_fine_def)
  show ?thesis
    using repair_leaves_archive_entry [OF h1 h2 h3 h4 h5 h6 h7 h8, of empty_report] c
    by (simp add: main_def empty_report_def basename_a)
qed

text \<open>A block of white space holds no closing marker, and nothing of it survives \<open>strip\<close>.\<close>

lemma blank_no_closing:
  assumes "\<forall>c \<in> set ws. isspace c"
  shows "\<not> sublist ''```'' (ws @ ''``'')"
  using assms
proof (induction ws)
  case Nil
  then show ?case by (simp add: sublist_Cons_right)
next
  case (Cons w ws)
  then have "w \<noteq> CHR 0x60" by (auto simp: isspace_def)
  with Cons show ?case by (simp add: sublist_Cons_right)
qed

lemma strip_blank:
  assumes "\<forall>c \<in> set ws. isspace c"
  shows "strip ws = []"
proof -
  have d: "dropWhile isspace ws = []"
    using assms by (induction ws) simp_all
  show ?thesis unfolding strip_def d by simp
qed

text \<open>
  Claim C9. When the first fenced block of the response holds only white space, the
  translation is the empty string, not \<open>None\<close>; yet the file is recorded as not created,
  gets no archive entry, and the log shows the model call and nothing else: no cursor,
  no submission. This is the very state a response without any fenced block leads to.
\<close>

theorem blank_translation_counts_as_absent:
  assumes "content f = Some sql_code"
    and "converse env log (convert_prompt sql_code) = Inr (pre @ ''```sql'' @ ws @ ''```'' @ post)"
    and "\<not> sublist ''```sql'' (pre @ ''```sq'')"
    and "\<forall>c \<in> set ws. isspace c"
  shows "fst (process_sql_code env log sql_code) = Some []
       \<and> process_file env snowflake_connection f rep log =
           (Inr (rep\<lparr>not_created_files := not_created_files rep @ [basename (name f)]\<rparr>),
            log @ [Converse (convert_prompt sql_code)])
       \<and> process_file (env\<lparr>converse := \<lambda>l p. Inr []\<rparr>) snowflake_connection f rep log =
           process_file env snowflake_connection f rep log"
proof -
  have "extract_sql_block (pre @ ''```sql'' @ ws @ ''```'' @ post) = Some (strip ws)"
    using assms(3) blank_no_closing [OF assms(4)] by (intro extract_found [OF refl])
  then have x: "extract_sql_block (pre @ ''```sql'' @ ws @ ''```'' @ post) = Some []"
    by (simp only: strip_blank [OF assms(4)])
  have t: "fst (process_sql_code env log sql_code) = Some []"
    using assms(2) x by (simp add: process_sql_code_def convert_procedure_def)
  have p: "process_file env snowflake_connection f rep log =
           (Inr (rep\<lparr>not_created_files := not_created_files rep @ [basename (name f)]\<rparr>),
            log @ [Converse (convert_prompt sql_code)])"
    using assms(1,2) x by (simp add: process_file_def process_sql_code_def convert_procedure_def)
  have "process_file (env\<lparr>converse := \<lambda>l p. Inr []\<rparr>) snowflake_connection f rep log =
           process_file env snowflake_connection f rep log"
    unfolding p using assms(1)
    by (simp add: process_file_def process_sql_code_def convert_procedure_def extract_no_fence)
  with t p show ?thesis by simp
qed

theorem blank_translation_counts_as_absent_witness:
  "fst (process_sql_code empty_block (ui_start @ [Connect])
          ''CREATE PROCEDURE p AS BEGIN SELECT 1 END'') = Some []
   \<and> process_file empty_block (SnowflakeConnection 1) script_a empty_report (ui_start @ [Connect])
      = (Inr \<lparr>converted_files = [], created_successfully = [], not_created_files = [''a.sql'']\<rparr>,
         ui_start @ [Connect, Converse (convert_prompt ''CREATE PROCEDURE p AS BEGIN SELECT 1 END'')])"
proof -
  have h1: "content script_a = Some ''CREATE PROCEDURE p AS BEGIN SELECT 1 END''"
    by (simp add: script_a_def)
  have h2: "converse empty_block (ui_start @ [Connect])
              (convert_prompt ''CREATE PROCEDURE p AS BEGIN SELECT 1 END'')
            = Inr ([] @ ''```sql'' @ ''  \<newline>'' @ ''```'' @ [])"
    by (simp add: empty_block_def all_fine_def)
  have h3: "\<not> sublist ''```sql'' ([] @ ''```sq'')"
    by (simp add: sublist_Cons_right)
  have h4: "\<forall>c \<in> set ''  \<newline>''. isspace c"
    by (simp add: isspace_def)
  show ?thesis
    using blank_translation_counts_as_absent [OF h1 h2 h3 h4, of "SnowflakeConnection 1" empty_report]
    by (simp add: empty_report_def basename_a)
qed


subsection \<open>The batch\<close>

text \<open>Each file that the loop body completes adds its base name to one of the two lists.\<close>

lemma process_file_names:
  assumes "process_file env c f rep log = (Inr rep', log')"
  shows "mset (created_successfully rep') + mset (not_created_files rep')
           = mset (created_successfully rep) + mset (not_created_files rep)
             + {#basename (name f)#}"
  using assms
  by (auto simp: process_file_def Let_def split: option.splits prod.splits sum.splits if_splits)

lemma process_files_names:
  assumes "process_files env c fs rep log = (Inr rep', log')"
  shows "mset (created_successfully rep') + mset (not_created_files rep')
           = mset (created_successfully rep) + mset (not_created_files rep)
             + mset (map (\<lambda>f. basename (name f)) fs)"
  using assms
proof (induction fs arbitrary: rep log)
  case Nil
  then show ?case by simp
next
  case (Cons f fs)
  from Cons.prems obtain rep1 log1 where
    one: "process_file env c f rep log = (Inr rep1, log1)"
    and rest: "process_files env c fs rep1 log1 = (Inr rep', log')"
    by (auto split: prod.splits sum.splits)
  show ?case
    using process_file_names [OF one] Cons.IH [OF rest] by simp
qed

lemma main_completed:
  assumes "main env clicked uploaded_files = (Inr (Some rep), log)"
  obtains snowflake_connection log1 where
    "clicked" "uploaded_files \<noteq> []"
    "connect env ui_start = Inr snowflake_connection"
    "process_files env snowflake_connection uploaded_files empty_report (ui_start @ [Connect])
       = (Inr rep, log1)"
    "log = log1 @ display_results rep @ [CloseConnection]"
  using assms
  by (auto simp: main_def split: if_splits sum.splits prod.splits)

lemmas run_simps =
  main_def process_file_def process_sql_code_def convert_procedure_def
  create_stored_procedure_in_snowflake_def procedure_error_rtry_def
  all_fine_def script_a_def script_b_def basename_def empty_report_def
  extract_fenced_procedure extract_fenced_repair extract_blank_block

lemma run_answers_once:
  "fst (main model_answers_once True [script_a, script_b])
     = Inr (Some \<lparr>converted_files =
                     [(''a.sql'', ''CREATE PROCEDURE p() RETURNS INT AS BEGIN RETURN 1; END'')],
                  created_successfully = [''a.sql''],
                  not_created_files = [''b.sql'']\<rparr>)"
  by (simp add: run_simps model_answers_once_def model_calls_def ui_start_def)

text \<open>
  Claim C1, as the code has it. When \<^verbatim>\<open>main\<close> runs the loop to its end, the two lists
  together hold the base name of every uploaded file, once per file; when the base names
  are pairwise distinct, no name is in both lists.
\<close>

theorem outcome_lists_partition_completed_batch:
  assumes "main env clicked uploaded_files = (Inr (Some rep), log)"
  shows "mset (created_successfully rep) + mset (not_created_files rep)
           = mset (map (\<lambda>f. basename (name f)) uploaded_files)
       \<and> (distinct (map (\<lambda>f. basename (name f)) uploaded_files) \<longrightarrow>
            set (created_successfully rep) \<inter> set (not_created_files rep) = {})"
proof -
  from assms obtain snowflake_connection log1 where
    "process_files env snowflake_connection uploaded_files empty_report (ui_start @ [Connect])
       = (Inr rep, log1)"
    by (rule main_completed)
  from process_files_names [OF this]
  have m: "mset (created_successfully rep) + mset (not_created_files rep)
             = mset (map (\<lambda>f. basename (name f)) uploaded_files)"
    by (simp add: empty_report_def)
  have "set (created_successfully rep) \<inter> set (not_created_files rep) = {}"
    if d: "distinct (map (\<lambda>f. basename (name f)) uploaded_files)"
  proof (rule ccontr)
    assume "set (created_successfully rep) \<inter> set (not_created_files rep) \<noteq> {}"
    then obtain x where "x \<in> set (created_successfully rep)" "x \<in> set (not_created_files rep)"
      by blast
    then have "0 < count (mset (created_successfully rep)) x"
      "0 < count (mset (not_created_files rep)) x"
      by simp_all
    moreover have "count (mset (created_successfully rep) + mset (not_created_files rep)) x
      = count (mset (created_successfully rep)) x + count (mset (not_created_files rep)) x"
      by simp
    ultimately
    have "count (mset (created_successfully rep) + mset (not_created_files rep)) x \<ge> 2"
      by linarith
    with m have "count (mset (map (\<lambda>f. basename (name f)) uploaded_files)) x \<ge> 2"
      by simp
    moreover from d have "count (mset (map (\<lambda>f. basename (name f)) uploaded_files)) x \<le> 1"
      by (simp add: distinct_count_atmost_1)
    ultimately show False by simp
  qed
  with m show ?thesis by simp
qed

theorem outcome_lists_partition_completed_batch_witness:
  "fst (main model_answers_once True [script_a, script_b])
     = Inr (Some \<lparr>converted_files =
                     [(''a.sql'', ''CREATE PROCEDURE p() RETURNS INT AS BEGIN RETURN 1; END'')],
                  created_successfully = [''a.sql''],
                  not_created_files = [''b.sql'']\<rparr>)
   \<and> mset [''a.sql''] + mset [''b.sql''] = mset (map (\<lambda>f. basename (name f)) [script_a, script_b])
   \<and> set [''a.sql''] \<inter> set [''b.sql''] = {}"
proof -
  let ?rep = "\<lparr>converted_files =
                     [(''a.sql'', ''CREATE PROCEDURE p() RETURNS INT AS BEGIN RETURN 1; END'')],
                  created_successfully = [''a.sql''],
                  not_created_files = [''b.sql'']\<rparr>"
  have "main model_answers_once True [script_a, script_b]
          = (Inr (Some ?rep), snd (main model_answers_once True [script_a, script_b]))"
    using run_answers_once by (metis prod.collapse)
  from outcome_lists_partition_completed_batch [OF this] run_answers_once
  show ?thesis
    by (simp add: script_a_def script_b_def basename_def)
qed

text \<open>
  Claim C1 as stated fails twice. A submission that raises an error other than a
  programming error ends the loop: \<^verbatim>\<open>main\<close> shows an error and no list, so no name is
  recorded. And two uploads of the same name, one created and one not, put that name in
  both lists.
\<close>

theorem outcome_lists_counterexample:
  "fst (main db_lost True [script_a, script_b]) = Inr None
   \<and> fst (main model_answers_once True [script_a, script_a])
       = Inr (Some \<lparr>converted_files =
                       [(''a.sql'', ''CREATE PROCEDURE p() RETURNS INT AS BEGIN RETURN 1; END'')],
                    created_successfully = [''a.sql''],
                    not_created_files = [''a.sql'']\<rparr>)"
  by (simp add: run_simps db_lost_def model_answers_once_def model_calls_def ui_start_def)


text \<open>The archive is the list it is built from, and the loop only appends to that list.\<close>

lemma create_zip_file_entries: "create_zip_file entries = entries"
proof -
  have "foldl (\<lambda>zip_file (file_name, converted_code). zip_file @ [(file_name, converted_code)])
          acc xs = acc @ xs" for acc and xs :: "(string \<times> string) list"
    by (induction xs arbitrary: acc) auto
  then show ?thesis by (simp add: create_zip_file_def)
qed

lemma process_file_archive:
  assumes "content f = Some sql_code"
    and "process_file env c f rep log = (Inr rep', log')"
  shows "converted_files rep' = converted_files rep
           @ (if truthy (fst (process_sql_code env log sql_code))
              then [(basename (name f), the (fst (process_sql_code env log sql_code)))] else [])"
  using assms
  by (auto simp: process_file_def Let_def split: prod.splits sum.splits if_splits)

lemma process_file_decoded:
  assumes "process_file env c f rep log = (Inr rep', log')"
  obtains sql_code where "content f = Some sql_code"
  using assms by (cases "content f") (auto simp: process_file_def)

lemma process_files_archive:
  assumes "process_files env c fs rep log = (Inr rep', log')"
  shows "converted_files rep' = converted_files rep
           @ concat (map2 (\<lambda>f tr. if truthy tr then [(basename (name f), the tr)] else [])
                fs (translation_results env c fs rep log))
       \<and> length (translation_results env c fs rep log) = length fs"
  using assms
proof (induction fs arbitrary: rep log)
  case Nil
  then show ?case by simp
next
  case (Cons f fs)
  from Cons.prems obtain rep1 log1 where
    one: "process_file env c f rep log = (Inr rep1, log1)"
    and rest: "process_files env c fs rep1 log1 = (Inr rep', log')"
    by (auto split: prod.splits sum.splits)
  from one obtain sql_code where dec: "content f = Some sql_code"
    by (rule process_file_decoded)
  have tr: "translation_results env c (f # fs) rep log
          = fst (process_sql_code env log sql_code) # translation_results env c fs rep1 log1"
    using dec one by simp
  show ?case
    unfolding tr using process_file_archive [OF dec one] Cons.IH [OF rest] by simp
qed

lemma run_archive:
  "main model_answers_once True [script_a, script_b]
     = (Inr (Some \<lparr>converted_files =
                     [(''a.sql'', ''CREATE PROCEDURE p() RETURNS INT AS BEGIN RETURN 1; END'')],
                  created_successfully = [''a.sql''],
                  not_created_files = [''b.sql'']\<rparr>),
        snd (main model_answers_once True [script_a, script_b]))"
  using run_answers_once by (metis prod.collapse)

text \<open>
  Claim C3, as the code has it. When \<^verbatim>\<open>main\<close> runs the loop to its end, the archive
  handed to the download button holds, in upload order, one entry for each file whose
  translation was a non-empty string, under the file's base name and with that
  translation as contents, and no other entry, whatever the registration answered.
\<close>

theorem archive_holds_nonempty_translations:
  assumes "connect env ui_start = Inr snowflake_connection"
    and "main env clicked uploaded_files = (Inr (Some rep), log)"
  shows "create_zip_file (converted_files rep)
           = concat (map2 (\<lambda>f tr. if truthy tr then [(basename (name f), the tr)] else [])
               uploaded_files
               (translation_results env snowflake_connection uploaded_files empty_report
                  (ui_start @ [Connect])))
       \<and> length (translation_results env snowflake_connection uploaded_files empty_report
                  (ui_start @ [Connect])) = length uploaded_files
       \<and> StDownloadButton (create_zip_file (converted_files rep)) \<in> set log"
proof -
  from assms(2) obtain c log1 where
    c: "connect env ui_start = Inr c"
    and run: "process_files env c uploaded_files empty_report (ui_start @ [Connect])
       = (Inr rep, log1)"
    and log: "log = log1 @ display_results rep @ [CloseConnection]"
    by (rule main_completed)
  from c assms(1) have "c = snowflake_connection" by simp
  with process_files_archive [OF run] log show ?thesis
    by (simp add: create_zip_file_entries empty_report_def display_results_def)
qed

theorem archive_holds_nonempty_translations_witness:
  "translation_results model_answers_once (SnowflakeConnection 1) [script_a, script_b]
      empty_report (ui_start @ [Connect])
     = [Some ''CREATE PROCEDURE p() RETURNS INT AS BEGIN RETURN 1; END'', None]
   \<and> create_zip_file
        [(''a.sql'', ''CREATE PROCEDURE p() RETURNS INT AS BEGIN RETURN 1; END'')]
     = concat (map2 (\<lambda>f tr. if truthy tr then [(basename (name f), the tr)] else [])
         [script_a, script_b]
         (translation_results model_answers_once (SnowflakeConnection 1) [script_a, script_b]
            empty_report (ui_start @ [Connect])))"
proof -
  have h1: "connect model_answers_once ui_start = Inr (SnowflakeConnection 1)"
    by (simp add: model_answers_once_def all_fine_def)
  have t: "translation_results model_answers_once (SnowflakeConnection 1) [script_a, script_b]
      empty_report (ui_start @ [Connect])
     = [Some ''CREATE PROCEDURE p() RETURNS INT AS BEGIN RETURN 1; END'', None]"
    by (simp add: run_simps model_answers_once_def model_calls_def ui_start_def)
  from archive_holds_nonempty_translations [OF h1 run_archive] t
  show ?thesis by simp
qed

text \<open>
  Claim C3 as stated fails: the translation of \<open>script_a\<close> is the empty string, which
  is not \<open>None\<close>, and the archive is empty.
\<close>

theorem archive_skips_empty_translation:
  "fst (process_sql_code empty_block (ui_start @ [Connect])
          ''CREATE PROCEDURE p AS BEGIN SELECT 1 END'') = Some []
   \<and> content script_a = Some ''CREATE PROCEDURE p AS BEGIN SELECT 1 END''
   \<and> main empty_block True [script_a]
       = (Inr (Some \<lparr>converted_files = [], created_successfully = [],
                     not_created_files = [''a.sql'']\<rparr>),
          ui_start @ [Connect, Converse (convert_prompt ''CREATE PROCEDURE p AS BEGIN SELECT 1 END''),
                      StSuccess ''Conversion Complete!'',
                      StSubheader ''Successfully Created Procedures in Snowflake:'',
                      StWrite [],
                      StSubheader ''Not Created Procedures:'',
                      StWrite [''a.sql''],
                      StDownloadButton [],
                      CloseConnection])"
  by (simp add: run_simps empty_block_def display_results_def create_zip_file_def)


subsection \<open>The connection\<close>

text \<open>Nothing inside the loop connects or closes the connection.\<close>

lemma registration_log:
  "\<exists>ext. snd (create_stored_procedure_in_snowflake env c log sql_code) = log @ ext
         \<and> Connect \<notin> set ext \<and> CloseConnection \<notin> set ext"
proof (cases "cursor env log")
  case (Inl e)
  show ?thesis
  proof (cases "\<exists>m. e = ProgrammingError m")
    case True
    then obtain m where e: "e = ProgrammingError m" by blast
    obtain x l1 where p: "procedure_error_rtry env c (log @ [OpenCursor]) sql_code m = (x, l1)"
      by (cases "procedure_error_rtry env c (log @ [OpenCursor]) sql_code m")
    from procedure_error_rtry_log [OF p] obtain ext where "l1 = (log @ [OpenCursor]) @ ext"
      "Connect \<notin> set ext" "CloseConnection \<notin> set ext" by auto
    moreover have "snd (create_stored_procedure_in_snowflake env c log sql_code) = l1"
      using Inl e p by (simp add: create_stored_procedure_in_snowflake_def)
    ultimately show ?thesis by (intro exI [of _ "OpenCursor # ext"]) simp
  next
    case False
    then have "snd (create_stored_procedure_in_snowflake env c log sql_code) = log @ [OpenCursor]"
      using Inl by (cases e) (auto simp: create_stored_procedure_in_snowflake_def)
    then show ?thesis by simp
  qed
next
  case (Inr u)
  then have "cursor env log = Inr ()" by simp
  from registration_log_acquired [OF this, of c sql_code] obtain mid where
    "snd (create_stored_procedure_in_snowflake env c log sql_code)
       = log @ [OpenCursor] @ mid @ [CloseCursor]"
    and "set mid \<subseteq> range Execute \<union> range Converse \<union> range Print"
    by blast
  then show ?thesis by (intro exI [of _ "[OpenCursor] @ mid @ [CloseCursor]"]) auto
qed

lemma process_file_log:
  "\<exists>ext. snd (process_file env c f rep log) = log @ ext
         \<and> Connect \<notin> set ext \<and> CloseConnection \<notin> set ext"
proof (cases "content f")
  case None
  then show ?thesis by (simp add: process_file_def)
next
  case (Some sql_code)
  obtain tr log1 where t: "process_sql_code env log sql_code = (tr, log1)"
    by (cases "process_sql_code env log sql_code")
  then obtain ext1 where l1: "log1 = log @ ext1"
    and e1: "Connect \<notin> set ext1" "CloseConnection \<notin> set ext1"
    using convert_procedure_log [of env log sql_code tr log1]
    by (auto simp: process_sql_code_def)
  show ?thesis
  proof (cases "truthy tr")
    case False
    with Some t l1 have "snd (process_file env c f rep log) = log @ ext1"
      by (simp add: process_file_def)
    with e1 show ?thesis by blast
  next
    case True
    from registration_log [of env c log1 "the tr"] obtain ext2 where
      l2: "snd (create_stored_procedure_in_snowflake env c log1 (the tr)) = log1 @ ext2"
      and e2: "Connect \<notin> set ext2" "CloseConnection \<notin> set ext2" by blast
    from Some t True have "snd (process_file env c f rep log)
        = snd (create_stored_procedure_in_snowflake env c log1 (the tr))"
      by (auto simp: process_file_def Let_def split: prod.splits sum.splits)
    with l1 l2 have "snd (process_file env c f rep log) = log @ (ext1 @ ext2)" by simp
    moreover from e1 e2 have "Connect \<notin> set (ext1 @ ext2)" "CloseConnection \<notin> set (ext1 @ ext2)"
      by simp_all
    ultimately show ?thesis by blast
  qed
qed

lemma process_files_log:
  "\<exists>ext. snd (process_files env c fs rep log) = log @ ext
         \<and> Connect \<notin> set ext \<and> CloseConnection \<notin> set ext"
proof (induction fs arbitrary: rep log)
  case Nil
  then show ?case by simp
next
  case (Cons f fs)
  obtain r1 log1 where pf: "process_file env c f rep log = (r1, log1)"
    by (cases "process_file env c f rep log")
  from process_file_log [of env c f rep log] pf obtain ext1 where
    l1: "log1 = log @ ext1"
    and e1: "Connect \<notin> set ext1" "CloseConnection \<notin> set ext1" by auto
  show ?case
  proof (cases r1)
    case (Inl e)
    with pf have "snd (process_files env c (f # fs) rep log) = log1"
      by simp
    with l1 e1 show ?thesis by auto
  next
    case (Inr rep1)
    with pf have "snd (process_files env c (f # fs) rep log)
        = snd (process_files env c fs rep1 (log @ ext1))"
      using l1 by simp
    moreover from Cons.IH [of rep1 "log @ ext1"] obtain ext2 where
      "snd (process_files env c fs rep1 (log @ ext1)) = (log @ ext1) @ ext2"
      "Connect \<notin> set ext2" "CloseConnection \<notin> set ext2" by blast
    ultimately have "snd (process_files env c (f # fs) rep log) = log @ (ext1 @ ext2)"
      "Connect \<notin> set (ext1 @ ext2)" "CloseConnection \<notin> set (ext1 @ ext2)"
      using e1 by simp_all
    then show ?thesis by blast
  qed
qed

text \<open>
  Once the connection is established it is closed exactly once, as the last event of
  \<^verbatim>\<open>main\<close>, whether the loop ran to its end or an exception left it.
\<close>

lemma connection_closed_once_when_established:
  assumes "connect env ui_start = Inr c" and "uploaded_files \<noteq> []"
  shows "\<exists>mid. snd (main env True uploaded_files) = ui_start @ [Connect] @ mid @ [CloseConnection]
               \<and> Connect \<notin> set mid \<and> CloseConnection \<notin> set mid"
proof -
  from process_files_log [of env c uploaded_files empty_report "ui_start @ [Connect]"]
  obtain ext where
    l: "snd (process_files env c uploaded_files empty_report (ui_start @ [Connect]))
          = (ui_start @ [Connect]) @ ext"
    and e: "Connect \<notin> set ext" "CloseConnection \<notin> set ext" by blast
  obtain r log1 where pf:
    "process_files env c uploaded_files empty_report (ui_start @ [Connect]) = (r, log1)"
    by (cases "process_files env c uploaded_files empty_report (ui_start @ [Connect])")
  with l have l1: "log1 = ui_start @ [Connect] @ ext" by simp
  show ?thesis
  proof (cases r)
    case (Inl x)
    with assms pf l1 have "snd (main env True uploaded_files)
        = ui_start @ [Connect] @ (ext @ [StError (''Failed to connect to Snowflake: '' @ str_exn x)])
            @ [CloseConnection]"
      by (simp add: main_def)
    with e show ?thesis
      by (intro exI [of _ "ext @ [StError (''Failed to connect to Snowflake: '' @ str_exn x)]"])
        simp
  next
    case (Inr rep)
    with assms pf l1 have "snd (main env True uploaded_files)
        = ui_start @ [Connect] @ (ext @ display_results rep) @ [CloseConnection]"
      by (simp add: main_def)
    with e show ?thesis
      by (intro exI [of _ "ext @ display_results rep"]) (simp add: display_results_def)
  qed
qed

text \<open>
  When \<^verbatim>\<open>connect\<close> raises, the handler reports the failure, and then the \<^verbatim>\<open>finally\<close>
  clause reads \<^verbatim>\<open>snowflake_connection\<close>, which was never bound.
\<close>

lemma connection_unbound_when_connect_fails:
  assumes "connect env ui_start = Inl e" and "uploaded_files \<noteq> []"
  shows "main env True uploaded_files =
           (Inl (UnboundLocalError ''snowflake_connection''),
            ui_start @ [Connect, StError (''Failed to connect to Snowflake: '' @ str_exn e)])"
  using assms by (simp add: main_def)

text \<open>
  Claim C6 at a batch of one file and a connection that cannot be established:
  \<^verbatim>\<open>UnboundLocalError\<close> leaves \<^verbatim>\<open>main\<close>, and the log holds no \<open>CloseConnection\<close>.
\<close>

theorem connect_failure_escapes_main:
  "main connect_fails True [script_a] =
     (Inl (UnboundLocalError ''snowflake_connection''),
      ui_start @ [Connect, StError ''Failed to connect to Snowflake: 250001: could not connect''])
   \<and> CloseConnection \<notin> set (snd (main connect_fails True [script_a]))"
  by (simp add: main_def connect_fails_def all_fine_def ui_start_def)


end
